theory Spec2Isabelle
  imports Complex_Main "HOL-Library.Multiset"
begin

section \<open>Errors and results\<close>

text \<open>
  Every exception the modelled Python code can raise is a value of \<open>error\<close>; a call that
  may raise returns \<open>error + 'a\<close> with \<open>Inl\<close> for the exception.
\<close>

datatype error = ValueError | IndexError | NameError | KeyError | NotImplementedError

text \<open>Sequencing of calls that may raise: the first exception aborts the rest.\<close>

definition bindE :: "error + 'a \<Rightarrow> ('a \<Rightarrow> error + 'b) \<Rightarrow> error + 'b" where
  "bindE m f = (case m of Inl err \<Rightarrow> Inl err | Inr x \<Rightarrow> f x)"

text \<open>
  numpy integer indexing along an axis of length \<open>n\<close>: indices \<open>0 \<le> i < n\<close> address from
  the front, \<open>-n \<le> i < 0\<close> from the back, everything else raises IndexError.
\<close>

definition norm_index :: "nat \<Rightarrow> int \<Rightarrow> error + nat" where
  "norm_index n i =
     (if 0 \<le> i \<and> i < int n then Inr (nat i)
      else if - int n \<le> i \<and> i < 0 then Inr (nat (i + int n))
      else Inl IndexError)"

fun index_list :: "nat \<Rightarrow> int list \<Rightarrow> error + nat list" where
  "index_list n [] = Inr []"
| "index_list n (i # is) =
     bindE (norm_index n i) (\<lambda>j. bindE (index_list n is) (\<lambda>js. Inr (j # js)))"

section \<open>sisl/eigensystem.py\<close>

subsection \<open>Data\<close>

text \<open>
  A two-dimensional numpy array: its shape and its elements in row-major order
  (what \<open>ravel()\<close> returns). Eigenvalues are modelled as reals (they are sorted, so
  they are ordered) and eigenvector components as complex numbers, both exact.
\<close>

record ndarray2 =
  nr :: nat
  nc :: nat
  flat :: "complex list"

definition row :: "ndarray2 \<Rightarrow> nat \<Rightarrow> complex list" where
  "row M i = take (nc M) (drop (i * nc M) (flat M))"

definition rows :: "ndarray2 \<Rightarrow> complex list list" where
  "rows M = map (row M) [0..<nr M]"

text \<open>
  The \<open>info\<close> attribute is a Python dict, a mutable object held by reference. The store
  maps an address (the position in the list) to the dict that lives there; allocation
  appends. The arrays \<open>e\<close> and \<open>v\<close> are held by value: every operation below that builds
  an EigenSystem hands the constructor an array freshly produced by integer-array indexing
  or by \<open>copy()\<close>, which numpy allocates anew. \<open>parent\<close> is an opaque handle.
\<close>

type_synonym dict = "(string \<times> string) list"
type_synonym store = "dict list"
type_synonym addr = nat

record EigenSystem =
  es_e :: "real list"
  es_v :: ndarray2
  es_parent :: "nat option"
  es_info :: addr

subsection \<open>Operations\<close>

text \<open>
  \<open>__init__(e, v, parent, **info)\<close>: \<open>e0\<close> and \<open>v0\<close> are the raveled arguments. Setting
  \<open>self.v.shape = (len(self), -1)\<close> raises ValueError when the number of eigenvalues is
  zero or does not divide the number of elements of \<open>v\<close>; otherwise the second extent is
  the quotient. The keyword dict is a new object on every call.
\<close>

definition EigenSystem_init ::
  "store \<Rightarrow> real list \<Rightarrow> complex list \<Rightarrow> nat option \<Rightarrow> dict \<Rightarrow> error + (store \<times> EigenSystem)" where
  "EigenSystem_init st e0 v0 p kw =
     (let n = length e0 in
      if n = 0 \<or> length v0 mod n \<noteq> 0 then Inl ValueError
      else Inr (st @ [kw],
                \<lparr>es_e = e0, es_v = \<lparr>nr = n, nc = length v0 div n, flat = v0\<rparr>,
                 es_parent = p, es_info = length st\<rparr>))"

definition len_es :: "EigenSystem \<Rightarrow> nat" where
  "len_es S = length (es_e S)"

definition size_es :: "EigenSystem \<Rightarrow> nat" where
  "size_es S = nc (es_v S)"

text \<open>\<open>self.e[key]\<close> and \<open>self.v[key, :]\<close> for a raveled integer key.\<close>

definition take_e :: "EigenSystem \<Rightarrow> int list \<Rightarrow> error + real list" where
  "take_e S key = bindE (index_list (length (es_e S)) key) (\<lambda>js. Inr (map (\<lambda>j. es_e S ! j) js))"

definition take_v :: "EigenSystem \<Rightarrow> int list \<Rightarrow> error + ndarray2" where
  "take_v S key =
     bindE (index_list (nr (es_v S)) key)
       (\<lambda>js. Inr \<lparr>nr = length js, nc = nc (es_v S), flat = concat (map (row (es_v S)) js)\<rparr>)"

text \<open>
  \<open>__getitem__(key)\<close> and \<open>sub(idx)\<close> have the same body: index both arrays, construct,
  then rebind \<open>info\<close> of the new object to the dict of \<open>self\<close>. A scalar key is the
  one-element list.
\<close>

definition getitem :: "store \<Rightarrow> EigenSystem \<Rightarrow> int list \<Rightarrow> error + (store \<times> EigenSystem)" where
  "getitem st S key =
     bindE (take_e S key) (\<lambda>e1.
     bindE (take_v S key) (\<lambda>v1.
     bindE (EigenSystem_init st e1 (flat v1) (es_parent S) [])
       (\<lambda>(st1, T). Inr (st1, T\<lparr>es_info := es_info S\<rparr>))))"

definition sub :: "store \<Rightarrow> EigenSystem \<Rightarrow> int list \<Rightarrow> error + (store \<times> EigenSystem)" where
  "sub st S idx =
     bindE (take_e S idx) (\<lambda>e1.
     bindE (take_v S idx) (\<lambda>v1.
     bindE (EigenSystem_init st e1 (flat v1) (es_parent S) [])
       (\<lambda>(st1, T). Inr (st1, T\<lparr>es_info := es_info S\<rparr>))))"

definition copy_es :: "store \<Rightarrow> EigenSystem \<Rightarrow> error + (store \<times> EigenSystem)" where
  "copy_es st S =
     bindE (EigenSystem_init st (es_e S) (flat (es_v S)) (es_parent S) [])
       (\<lambda>(st1, T). Inr (st1, T\<lparr>es_info := es_info S\<rparr>))"

text \<open>
  \<open>iter(only_e, only_v)\<close> is a generator; the model returns the list of what it yields.
  With both flags off it yields \<open>self.sub(i)\<close> for \<open>i\<close> in \<open>range(len(self))\<close>.
\<close>

datatype item = EV real "complex list" | OnlyE real | OnlyV "complex list" | Sys EigenSystem

fun sub_each :: "store \<Rightarrow> EigenSystem \<Rightarrow> nat list \<Rightarrow> error + (store \<times> item list)" where
  "sub_each st S [] = Inr (st, [])"
| "sub_each st S (i # is) =
     bindE (sub st S [int i]) (\<lambda>(st1, T).
     bindE (sub_each st1 S is) (\<lambda>(st2, Ts). Inr (st2, Sys T # Ts)))"

definition iter_es :: "store \<Rightarrow> EigenSystem \<Rightarrow> bool \<Rightarrow> bool \<Rightarrow> error + (store \<times> item list)" where
  "iter_es st S only_e only_v =
     (if only_e \<and> only_v then Inr (st, map (\<lambda>(x, y). EV x y) (zip (es_e S) (rows (es_v S))))
      else if only_e then Inr (st, map OnlyE (es_e S))
      else if only_v then Inr (st, map OnlyV (rows (es_v S)))
      else sub_each st S [0..<len_es S])"

text \<open>\<open>__iter__\<close> forwards \<open>self.iter()\<close> with the default flags.\<close>

definition iter_default :: "store \<Rightarrow> EigenSystem \<Rightarrow> error + (store \<times> item list)" where
  "iter_default st S = iter_es st S False False"

text \<open>
  \<open>sort(ascending)\<close> works in place: it rebinds \<open>self.e\<close> and \<open>self.v\<close> to the arrays
  indexed by \<open>np.argsort(self.e)\<close>, or by \<open>np.argsort(-self.e)\<close> for descending order.
  \<open>np.argsort\<close> is numpy's and is called with its default \<open>kind\<close>; it is a parameter here.
\<close>

definition sort_es :: "(real list \<Rightarrow> nat list) \<Rightarrow> bool \<Rightarrow> EigenSystem \<Rightarrow> error + EigenSystem" where
  "sort_es argsort ascending S =
     (let idx = (if ascending then argsort (es_e S) else argsort (map uminus (es_e S))) in
      bindE (take_e S (map int idx)) (\<lambda>e1.
      bindE (take_v S (map int idx)) (\<lambda>v1.
      Inr (S\<lparr>es_e := e1, es_v := v1\<rparr>))))"

text \<open>
  What numpy documents of \<open>argsort\<close> for any \<open>kind\<close>: the result is a permutation of the
  positions that puts the values in non-decreasing order.
\<close>

definition argsort_ok :: "(real list \<Rightarrow> nat list) \<Rightarrow> bool" where
  "argsort_ok argsort \<longleftrightarrow>
     (\<forall>xs. mset (argsort xs) = mset [0..<length xs] \<and> sorted (map (\<lambda>i. xs ! i) (argsort xs)))"

text \<open>Two implementations that meet it: a stable one, and one that reverses ties.\<close>

definition argsort_stable :: "real list \<Rightarrow> nat list" where
  "argsort_stable xs = sort_key (\<lambda>i. xs ! i) [0..<length xs]"


text \<open>The shape invariant: \<open>v\<close> has shape \<open>(len(e), size)\<close> and holds that many elements.\<close>

definition shape_inv :: "EigenSystem \<Rightarrow> bool" where
  "shape_inv S \<longleftrightarrow>
     nr (es_v S) = length (es_e S) \<and> length (flat (es_v S)) = nr (es_v S) * nc (es_v S)"

definition is_Sys_inv :: "item \<Rightarrow> bool" where
  "is_Sys_inv x = (case x of Sys T \<Rightarrow> shape_inv T | _ \<Rightarrow> False)"

text \<open>A two-state system used to run the operations on a concrete input.\<close>

definition ex_S :: EigenSystem where
  "ex_S = \<lparr>es_e = [2, 1], es_v = \<lparr>nr = 2, nc = 2, flat = [1, 0, 0, 1]\<rparr>,
           es_parent = None, es_info = 0\<rparr>"

text \<open>The index array that sort computes, and what sort returns for a well-behaved argsort.\<close>

definition sort_idx :: "(real list \<Rightarrow> nat list) \<Rightarrow> bool \<Rightarrow> EigenSystem \<Rightarrow> nat list" where
  "sort_idx argsort ascending S =
     (if ascending then argsort (es_e S) else argsort (map uminus (es_e S)))"


text \<open>
  What the constructor guarantees of every EigenSystem: at least one eigenvalue (the
  reshape to \<open>(0, -1)\<close> raises), and the shape invariant.
\<close>

definition valid_es :: "EigenSystem \<Rightarrow> bool" where
  "valid_es S \<longleftrightarrow> es_e S \<noteq> [] \<and> shape_inv S"

text \<open>The (eigenvalue, eigenvector) pairs, in order.\<close>

definition pairs :: "EigenSystem \<Rightarrow> (real \<times> complex list) list" where
  "pairs S = zip (es_e S) (rows (es_v S))"


subsection \<open>Shared state, and the outer product\<close>

text \<open>Python's \<open>d[k] = x\<close> on the dict at address \<open>a\<close>, and reading a dict.\<close>

definition dict_setitem :: "store \<Rightarrow> addr \<Rightarrow> string \<Rightarrow> string \<Rightarrow> store" where
  "dict_setitem st a k x = st[a := (k, x) # filter (\<lambda>p. fst p \<noteq> k) (st ! a)]"

definition dict_at :: "store \<Rightarrow> addr \<Rightarrow> dict" where
  "dict_at st a = st ! a"

type_synonym matrix = "complex list list"

text \<open>\<open>np.outer(a, b)\<close>: the matrix of all products \<open>a[i] * b[j]\<close>.\<close>

definition np_outer :: "complex list \<Rightarrow> complex list \<Rightarrow> matrix" where
  "np_outer a b = map (\<lambda>x. map (\<lambda>y. x * y) b) a"

text \<open>\<open>_outer(e, v) = np.outer(v * e, conj(v))\<close>.\<close>

definition outer_ev :: "real \<Rightarrow> complex list \<Rightarrow> matrix" where
  "outer_ev ev vec = np_outer (map (\<lambda>x. x * of_real ev) vec) (map cnj vec)"

text \<open>\<open>m += t\<close> for two matrices of the same shape.\<close>

definition madd :: "matrix \<Rightarrow> matrix \<Rightarrow> matrix" where
  "madd m t = map2 (\<lambda>r1 r2. map2 (+) r1 r2) m t"

text \<open>\<open>_outer(self.e[i], self.v[i, :])\<close>; either indexing may raise IndexError.\<close>

definition outer_at :: "EigenSystem \<Rightarrow> int \<Rightarrow> error + matrix" where
  "outer_at S i =
     bindE (norm_index (length (es_e S)) i) (\<lambda>j.
     bindE (norm_index (nr (es_v S)) i) (\<lambda>j'.
     Inr (outer_ev (es_e S ! j) (row (es_v S) j'))))"

fun outer_loop :: "EigenSystem \<Rightarrow> matrix \<Rightarrow> int list \<Rightarrow> error + matrix" where
  "outer_loop S m [] = Inr m"
| "outer_loop S m (i # is) = bindE (outer_at S i) (\<lambda>t. outer_loop S (madd m t) is)"

text \<open>
  \<open>outer(idx)\<close>. With \<open>idx = None\<close> the first term is taken at index 0 and the loop runs
  over \<open>range(1, len(self))\<close>; otherwise the first term is taken at \<open>idx[0]\<close>, which
  raises IndexError on an empty \<open>idx\<close>, and the loop runs over \<open>idx[1:]\<close>.
\<close>

definition outer_es :: "EigenSystem \<Rightarrow> int list option \<Rightarrow> error + matrix" where
  "outer_es S sel =
     (case sel of
        None \<Rightarrow> bindE (outer_at S 0) (\<lambda>m. outer_loop S m (map int [1..<len_es S]))
      | Some idx \<Rightarrow>
          (case idx of
             [] \<Rightarrow> Inl IndexError
           | i # is \<Rightarrow> bindE (outer_at S i) (\<lambda>m. outer_loop S m is)))"

text \<open>
  The matrix the specification describes: entry \<open>(a, b)\<close> is the sum over the selected
  states \<open>j\<close> of \<open>e\<^sub>j * v\<^sub>j[a] * conj(v\<^sub>j[b])\<close>.
\<close>

definition tab :: "nat \<Rightarrow> (nat \<Rightarrow> nat \<Rightarrow> complex) \<Rightarrow> matrix" where
  "tab d f = map (\<lambda>a. map (\<lambda>b. f a b) [0..<d]) [0..<d]"

definition outer_entry :: "EigenSystem \<Rightarrow> nat \<Rightarrow> nat \<Rightarrow> nat \<Rightarrow> complex" where
  "outer_entry S j a b =
     of_real (es_e S ! j) * (row (es_v S) j ! a) * cnj (row (es_v S) j ! b)"

definition outer_sum :: "EigenSystem \<Rightarrow> nat list \<Rightarrow> matrix" where
  "outer_sum S js = tab (size_es S) (\<lambda>a b. \<Sum>j\<leftarrow>js. outer_entry S j a b)"

text \<open>Eigenvalues 1 and 2 with the identity as eigenvectors.\<close>

definition ex_diag :: EigenSystem where
  "ex_diag = \<lparr>es_e = [1, 2], es_v = \<lparr>nr = 2, nc = 2, flat = [1, 0, 0, 1]\<rparr>,
              es_parent = None, es_info = 0\<rparr>"

section \<open>sisl/io/tbtrans: the NetCDF file objects\<close>

subsection \<open>File state\<close>

text \<open>
  What the methods read from an open TBtrans NetCDF file. \<open>_value\<close>, \<open>_variable\<close> and
  \<open>_dimension\<close> belong to the base class \<open>SileCDFTBtrans\<close>, which is not part of the
  sources at hand; the record holds what they return: the energy grid \<open>self.E\<close> (in eV),
  the k-points \<open>self.k\<close>, the dimensions \<open>no\<close> and \<open>no_d\<close>, the variable \<open>pivot\<close> as
  stored (1-based), and the electrode groups in file order, each with its own \<open>pivot\<close>
  and, when present, the k-averaged self-energy variables indexed \<open>[ik][iE][i][j]\<close>.
\<close>

type_synonym kpoint = "real \<times> real \<times> real"
type_synonym tensor = "real list list list list"

record elec_group =
  eg_pivot :: "int list"
  eg_ReSelfEnergyMean :: "tensor option"
  eg_ImSelfEnergyMean :: "tensor option"

record tbt_file =
  tf_E :: "real list"
  tf_k :: "kpoint list"
  tf_no :: nat
  tf_no_d :: nat
  tf_pivot :: "int list"
  tf_groups :: "(string \<times> elec_group) list"

subsection \<open>\<open>_ncSileTBtrans.Eindex\<close> and \<open>kindex\<close>\<close>

text \<open>
  \<open>ndarray.argmin()\<close>: the first position of the smallest element; ValueError on an
  empty array.
\<close>

fun argmin_loop :: "real list \<Rightarrow> nat \<Rightarrow> nat \<Rightarrow> real \<Rightarrow> nat" where
  "argmin_loop [] i best bv = best"
| "argmin_loop (x # xs) i best bv =
     (if x < bv then argmin_loop xs (Suc i) i x else argmin_loop xs (Suc i) best bv)"

definition argmin :: "real list \<Rightarrow> error + nat" where
  "argmin xs = (case xs of [] \<Rightarrow> Inl ValueError | x # ys \<Rightarrow> Inr (argmin_loop ys 1 0 x))"

text \<open>
  The energy argument: an integer, a float, or a string together with what Python's
  \<open>float()\<close> makes of it (\<open>None\<close> when \<open>float\<close> raises ValueError).
\<close>

datatype energy_arg = EInt int | EFloat real | EStr string "real option"

text \<open>
  The result of a lookup is the index together with whether a UserWarning was emitted.
\<close>

definition Eindex_closest :: "tbt_file \<Rightarrow> real \<Rightarrow> error + (int \<times> bool)" where
  "Eindex_closest F x =
     bindE (argmin (map (\<lambda>y. \<bar>y - x\<bar>) (tf_E F))) (\<lambda>idxE.
       let ret_E = tf_E F ! idxE in Inr (int idxE, \<bar>ret_E - x\<bar> > 1 / 1000))"

definition Eindex :: "tbt_file \<Rightarrow> energy_arg \<Rightarrow> error + (int \<times> bool)" where
  "Eindex F E =
     (case E of
        EInt i \<Rightarrow> Inr (i, False)
      | EStr s None \<Rightarrow> Inl ValueError
      | EStr s (Some x) \<Rightarrow> Eindex_closest F x
      | EFloat x \<Rightarrow> Eindex_closest F x)"

text \<open>
  \<open>np.allclose(a, b, atol=0.0001)\<close> keeps the default \<open>rtol = 1e-5\<close>: every component must
  satisfy \<open>|a - b| \<le> atol + rtol * |b|\<close>.
\<close>

definition isclose :: "real \<Rightarrow> real \<Rightarrow> bool" where
  "isclose a b \<longleftrightarrow> \<bar>a - b\<bar> \<le> 1 / 10000 + 1 / 100000 * \<bar>b\<bar>"

definition allclose :: "kpoint \<Rightarrow> kpoint \<Rightarrow> bool" where
  "allclose a b =
     (case a of (a1, a2, a3) \<Rightarrow> case b of (b1, b2, b3) \<Rightarrow>
        isclose a1 b1 \<and> isclose a2 b2 \<and> isclose a3 b3)"

definition dist1 :: "kpoint \<Rightarrow> kpoint \<Rightarrow> real" where
  "dist1 a b =
     (case a of (a1, a2, a3) \<Rightarrow> case b of (b1, b2, b3) \<Rightarrow>
        \<bar>a1 - b1\<bar> + \<bar>a2 - b2\<bar> + \<bar>a3 - b3\<bar>)"

definition kindex :: "tbt_file \<Rightarrow> kpoint \<Rightarrow> error + (int \<times> bool)" where
  "kindex F k =
     bindE (argmin (map (\<lambda>q. dist1 q k) (tf_k F))) (\<lambda>ik.
       let ret_k = tf_k F ! ik in Inr (int ik, \<not> allclose ret_k k))"

text \<open>An energy grid and a single k-point to run the lookups on.\<close>

definition ex_grid :: tbt_file where
  "ex_grid = \<lparr>tf_E = [0, 1 / 10, 2 / 10], tf_k = [(1 / 2, 0, 0)], tf_no = 0, tf_no_d = 0,
              tf_pivot = [], tf_groups = []\<rparr>"

subsection \<open>\<open>tbtsencSileTBtrans\<close>: electrodes and pivoting tables\<close>

text \<open>
  The electrode argument: an integer, or a string together with what Python's \<open>int()\<close>
  makes of it (\<open>None\<close> when \<open>int\<close> raises). \<open>_elec\<close> returns \<open>self.elecs[int(elec)]\<close>, and on
  any exception whatever \<open>elec\<close> is bound to at that point: the string itself when \<open>int\<close>
  failed, the integer when only the list access failed.
\<close>

datatype elec_arg = ElecInt int | ElecStr string "int option"

datatype tree = TreeName string | TreeInt int

definition elecs :: "tbt_file \<Rightarrow> string list" where
  "elecs F = map fst (tf_groups F)"

definition elec_at :: "tbt_file \<Rightarrow> int \<Rightarrow> tree" where
  "elec_at F i =
     (case norm_index (length (elecs F)) i of
        Inr j \<Rightarrow> TreeName (elecs F ! j)
      | Inl err \<Rightarrow> TreeInt i)"

definition elec_tree :: "tbt_file \<Rightarrow> elec_arg \<Rightarrow> tree" where
  "elec_tree F el =
     (case el of
        ElecInt i \<Rightarrow> elec_at F i
      | ElecStr s None \<Rightarrow> TreeName s
      | ElecStr s (Some i) \<Rightarrow> elec_at F i)"

text \<open>
  Reading a variable of an electrode group; a group or variable that does not exist
  raises.
\<close>

definition group_of :: "tbt_file \<Rightarrow> tree \<Rightarrow> error + elec_group" where
  "group_of F t =
     (case t of
        TreeInt i \<Rightarrow> Inl KeyError
      | TreeName s \<Rightarrow> (case map_of (tf_groups F) s of None \<Rightarrow> Inl KeyError | Some g \<Rightarrow> Inr g))"

definition variable_of :: "tbt_file \<Rightarrow> (elec_group \<Rightarrow> 'a option) \<Rightarrow> tree \<Rightarrow> error + 'a" where
  "variable_of F var t =
     bindE (group_of F t) (\<lambda>g. case var g of None \<Rightarrow> Inl KeyError | Some x \<Rightarrow> Inr x)"

text \<open>numpy pieces used by \<open>pivot\<close>.\<close>

definition arangei :: "nat \<Rightarrow> int list" where
  "arangei n = map int [0..<n]"

definition cumsumi :: "int list \<Rightarrow> int list" where
  "cumsumi xs = map (\<lambda>n. sum_list (take (Suc n) xs)) [0..<length xs]"

text \<open>\<open>a[idx] = 0\<close> and \<open>a[idx]\<close> for an integer index array.\<close>

fun set_zero :: "int list \<Rightarrow> int list \<Rightarrow> error + int list" where
  "set_zero a [] = Inr a"
| "set_zero a (i # is) = bindE (norm_index (length a) i) (\<lambda>j. set_zero (a[j := 0]) is)"

definition take_int :: "int list \<Rightarrow> int list \<Rightarrow> error + int list" where
  "take_int a idx = bindE (index_list (length a) idx) (\<lambda>js. Inr (map (\<lambda>j. a ! j) js))"

text \<open>
  \<open>in1d(a, b, assume_unique=True).nonzero()[0]\<close>: the positions of \<open>a\<close> whose entry
  occurs in \<open>b\<close>, in increasing order (pivoting tables list every orbital once).
\<close>

definition in1d_nonzero :: "int list \<Rightarrow> int list \<Rightarrow> int list" where
  "in1d_nonzero a b = map int (filter (\<lambda>i. a ! i \<in> set b) [0..<length a])"

text \<open>
  \<open>pivot(elec, in_device, sort)\<close>. Without an electrode, the assignment of
  \<open>arangei(self.no_d)\<close> under \<open>in_device and sort\<close> is overwritten by the next statement,
  and the \<open>in_device\<close> branch does not look at \<open>sort\<close>.
\<close>

definition pivot :: "tbt_file \<Rightarrow> elec_arg option \<Rightarrow> bool \<Rightarrow> bool \<Rightarrow> error + int list" where
  "pivot F elec in_device sort_flag =
     (case elec of
        None \<Rightarrow>
          (let pvt = (if in_device \<and> sort_flag then arangei (tf_no_d F) else []);
               pvt = map (\<lambda>p. p - 1) (tf_pivot F)
           in if in_device then
                bindE (set_zero (replicate (tf_no F) 1) pvt) (\<lambda>subn.
                bindE (take_int (cumsumi subn) pvt) (\<lambda>c.
                Inr (map2 (\<lambda>p q. p - q) pvt c)))
              else if sort_flag then Inr (sort pvt)
              else Inr pvt)
      | Some el \<Rightarrow>
          (let pvt = (if in_device
                      then (let pvt = map (\<lambda>p. p - 1) (tf_pivot F)
                            in if sort_flag then sort pvt else pvt)
                      else [])
           in bindE (variable_of F (\<lambda>g. Some (eg_pivot g)) (elec_tree F el)) (\<lambda>se.
                let se_pvt = map (\<lambda>p. p - 1) se;
                    se_pvt = (if sort_flag then sort se_pvt else se_pvt)
                in if in_device then Inr (in1d_nonzero pvt se_pvt) else Inr se_pvt)))"

subsection \<open>\<open>self_energy_average\<close>\<close>

text \<open>
  The local variables a function body can read by name. \<open>self_energy_average\<close> binds
  \<open>tree\<close>, \<open>iE\<close>, \<open>re\<close> and \<open>im\<close> before it indexes with \<open>ik\<close> and \<open>iE\<close>; of the two only
  \<open>iE\<close> is bound. Reading a name that is not bound raises NameError.
\<close>

definition read_name :: "(string \<times> int) list \<Rightarrow> string \<Rightarrow> error + int" where
  "read_name env x = (case map_of env x of None \<Rightarrow> Inl NameError | Some n \<Rightarrow> Inr n)"

definition tensor_at :: "tensor \<Rightarrow> int \<Rightarrow> int \<Rightarrow> error + real list list" where
  "tensor_at t ik iE =
     bindE (norm_index (length t) ik) (\<lambda>a.
     bindE (norm_index (length (t ! a)) iE) (\<lambda>b. Inr (t ! a ! b)))"

text \<open>\<open>(re + 1j * im) * Ry2eV\<close>, and \<open>SE[idx, idx.T]\<close> for \<open>idx = argsort(pvt)\<close>.\<close>

definition SE_of :: "real \<Rightarrow> real list list \<Rightarrow> real list list \<Rightarrow> complex list list" where
  "SE_of Ry2eV re im = map2 (\<lambda>r1 r2. map2 (\<lambda>x y. Complex x y * of_real Ry2eV) r1 r2) re im"

definition argsort_int :: "int list \<Rightarrow> nat list" where
  "argsort_int pvt = sort_key (\<lambda>i. pvt ! i) [0..<length pvt]"

definition pivoted :: "complex list list \<Rightarrow> nat list \<Rightarrow> complex list list" where
  "pivoted SE idx = map (\<lambda>a. map (\<lambda>b. SE ! a ! b) idx) idx"

definition self_energy_average ::
  "real \<Rightarrow> tbt_file \<Rightarrow> elec_arg \<Rightarrow> energy_arg \<Rightarrow> bool \<Rightarrow> error + complex list list" where
  "self_energy_average Ry2eV F elec E sort_flag =
     (let t = elec_tree F elec in
      bindE (Eindex F E) (\<lambda>(iE, warned).
      bindE (variable_of F eg_ReSelfEnergyMean t) (\<lambda>re.
      bindE (variable_of F eg_ImSelfEnergyMean t) (\<lambda>im.
      let env = [(''iE'', iE)] in
      bindE (read_name env ''ik'') (\<lambda>ik.
      bindE (read_name env ''iE'') (\<lambda>iE.
      bindE (tensor_at re ik iE) (\<lambda>re1.
      bindE (tensor_at im ik iE) (\<lambda>im1.
      let SE = SE_of Ry2eV re1 im1 in
      if sort_flag then
        bindE (pivot F (Some elec) False False) (\<lambda>pvt. Inr (pivoted SE (argsort_int pvt)))
      else Inr SE))))))))"

text \<open>
  The file of the docstring of \<open>pivot\<close>: the device orbitals \<open>[3, 4, 6, 5, 2]\<close> and one
  electrode on the orbitals \<open>[2, 3]\<close> (0-based; stored 1-based), here with averaged
  self-energies on one energy point, and a second electrode on the orbitals \<open>[6, 4]\<close>.
\<close>

definition ex_se_file :: tbt_file where
  "ex_se_file =
     \<lparr>tf_E = [0], tf_k = [(0, 0, 0)], tf_no = 7, tf_no_d = 5, tf_pivot = [4, 5, 7, 6, 3],
      tf_groups = [(''Left'', \<lparr>eg_pivot = [3, 4],
                               eg_ReSelfEnergyMean = Some [[[[1, 0], [0, 1]]]],
                               eg_ImSelfEnergyMean = Some [[[[0, 0], [0, 0]]]]\<rparr>),
                   (''Right'', \<lparr>eg_pivot = [7, 5],
                                eg_ReSelfEnergyMean = None, eg_ImSelfEnergyMean = None\<rparr>)]\<rparr>"

section \<open>sisl/io/siesta/siesta.py: the Hamiltonian in a Siesta NetCDF file\<close>






text \<open>The column indices of each row, cut from \<open>col\<close> by the row counts.\<close>

fun row_cols :: "nat list \<Rightarrow> int list \<Rightarrow> int list list" where
  "row_cols [] cs = []"
| "row_cols (n # ns) cs = take n cs # row_cols ns (drop n cs)"













section \<open>sisl/physics: the MonkhorstPack grid\<close>

text \<open>
  Modelled from the spec: the class \<open>MonkhorstPack\<close> (\<open>sisl/physics/brillouinzone.py\<close>) is
  not among the sources; only its test \<open>test_trs\<close> is. The definitions below follow
  section 4.5 of the specification. Per axis of size \<open>n\<close> the grid is
  \<open>(i + 0.5) / n - 0.5\<close> when time-reversal symmetry is requested and \<open>i / n\<close>
  otherwise; the k-points are all combinations, in row-major order.
\<close>

definition axis_grid :: "bool \<Rightarrow> nat \<Rightarrow> real list" where
  "axis_grid trs n =
     (if trs then map (\<lambda>i. (real i + 1 / 2) / real n - 1 / 2) [0..<n]
      else map (\<lambda>i. real i / real n) [0..<n])"

definition mp_grid :: "bool \<Rightarrow> nat \<times> nat \<times> nat \<Rightarrow> kpoint list" where
  "mp_grid trs n =
     (case n of (nx, ny, nz) \<Rightarrow>
        List.product (axis_grid trs nx) (List.product (axis_grid trs ny) (axis_grid trs nz)))"

text \<open>
  Modelled from the spec: the displacement is added modulo 1 and wrapped into
  \<open>(-0.5, 0.5]\<close>; the size factors shrink the sampled region.
\<close>

definition wrap :: "real \<Rightarrow> real" where
  "wrap x = x - of_int \<lceil>x - 1 / 2\<rceil>"

definition displace :: "kpoint \<Rightarrow> kpoint \<Rightarrow> kpoint" where
  "displace d k =
     (case d of (d1, d2, d3) \<Rightarrow> case k of (k1, k2, k3) \<Rightarrow>
        (wrap (k1 + d1), wrap (k2 + d2), wrap (k3 + d3)))"

definition rescale :: "kpoint \<Rightarrow> kpoint \<Rightarrow> kpoint" where
  "rescale s k =
     (case s of (s1, s2, s3) \<Rightarrow> case k of (k1, k2, k3) \<Rightarrow> (k1 * s1, k2 * s2, k3 * s3))"

text \<open>
  Modelled from the spec: two k-points are the same modulo 1 when every component
  differs by an integer; a k-point is self-paired when it is its own negative modulo 1.
\<close>

definition same_mod1 :: "real \<Rightarrow> real \<Rightarrow> bool" where
  "same_mod1 a b \<longleftrightarrow> a - b = of_int \<lfloor>a - b\<rfloor>"

definition is_partner :: "kpoint \<Rightarrow> kpoint \<Rightarrow> bool" where
  "is_partner k q =
     (case k of (k1, k2, k3) \<Rightarrow> case q of (q1, q2, q3) \<Rightarrow>
        same_mod1 q1 (- k1) \<and> same_mod1 q2 (- k2) \<and> same_mod1 q3 (- k3))"

definition self_paired :: "kpoint \<Rightarrow> bool" where
  "self_paired k = is_partner k k"

text \<open>
  Modelled from the spec: with time-reversal symmetry every pair \<open>k\<close>, \<open>-k\<close> is collapsed
  to one representative whose weight is doubled; a self-paired k-point keeps its weight.
  The first k-point of a pair in grid order is kept, its partner is dropped; a k-point
  whose partner is not in the grid keeps its weight.
\<close>

function trs_collapse :: "(kpoint \<times> real) list \<Rightarrow> (kpoint \<times> real) list" where
  "trs_collapse [] = []"
| "trs_collapse ((k, w) # rest) =
     (if self_paired k then (k, w) # trs_collapse rest
      else
        (case find (\<lambda>p. is_partner k (fst p)) rest of
           None \<Rightarrow> (k, w) # trs_collapse rest
         | Some p \<Rightarrow> (k, 2 * w) # trs_collapse (remove1 p rest)))"
  by pat_completeness auto
termination
  by (relation "measure length") (auto simp: length_remove1)

text \<open>
  Modelled from the spec: every k-point has the weight
  \<open>size_x * size_y * size_z / (nx * ny * nz)\<close> before the collapse.
\<close>

definition MonkhorstPack ::
  "nat \<times> nat \<times> nat \<Rightarrow> bool \<Rightarrow> kpoint \<Rightarrow> kpoint \<Rightarrow> (kpoint \<times> real) list" where
  "MonkhorstPack n trs displacement size3 =
     (case n of (nx, ny, nz) \<Rightarrow> case size3 of (s1, s2, s3) \<Rightarrow>
        let w = s1 * s2 * s3 / real (nx * ny * nz);
            kw = map (\<lambda>k. (rescale size3 (displace displacement k), w)) (mp_grid trs n)
        in if trs then trs_collapse kw else kw)"

definition weight_sum :: "(kpoint \<times> real) list \<Rightarrow> real" where
  "weight_sum kw = sum_list (map snd kw)"

section \<open>Basic facts\<close>

lemma bindE_Inr_iff: "bindE m f = Inr y \<longleftrightarrow> (\<exists>x. m = Inr x \<and> f x = Inr y)"
  by (cases m) (simp_all add: bindE_def)

lemma bindE_Inr [simp]: "bindE (Inr x) f = f x"
  by (simp add: bindE_def)

lemma bindE_Inl [simp]: "bindE (Inl err) f = Inl err"
  by (simp add: bindE_def)

lemma index_list_length: "index_list n key = Inr js \<Longrightarrow> length js = length key"
  by (induction key arbitrary: js) (auto simp: bindE_Inr_iff)

lemma norm_index_less: "norm_index n i = Inr j \<Longrightarrow> j < n"
  by (auto simp: norm_index_def split: if_splits)

lemma index_list_less: "index_list n key = Inr js \<Longrightarrow> \<forall>j \<in> set js. j < n"
  by (induction key arbitrary: js) (auto simp: bindE_Inr_iff dest: norm_index_less)

lemma init_shape_inv: "EigenSystem_init st e0 v0 p kw = Inr (st1, S) \<Longrightarrow> shape_inv S"
  by (auto simp: EigenSystem_init_def shape_inv_def Let_def split: if_splits)

lemma init_info_shape_inv:
  "EigenSystem_init st e0 v0 p kw = Inr (st1, T) \<Longrightarrow> shape_inv (T\<lparr>es_info := a\<rparr>)"
  by (auto simp: EigenSystem_init_def shape_inv_def Let_def split: if_splits)

lemma sub_shape_inv: "sub st S idx = Inr (st1, T) \<Longrightarrow> shape_inv T"
  by (auto simp: sub_def bindE_Inr_iff dest: init_info_shape_inv)

lemma getitem_shape_inv: "getitem st S key = Inr (st1, T) \<Longrightarrow> shape_inv T"
  by (auto simp: getitem_def bindE_Inr_iff dest: init_info_shape_inv)

lemma copy_shape_inv: "copy_es st S = Inr (st1, T) \<Longrightarrow> shape_inv T"
  by (auto simp: copy_es_def bindE_Inr_iff dest: init_info_shape_inv)

lemma sub_each_shape_inv:
  "sub_each st S is = Inr (st1, Ts) \<Longrightarrow> \<forall>x \<in> set Ts. is_Sys_inv x"
proof (induction "is" arbitrary: st Ts)
  case Nil
  then show ?case by simp
next
  case (Cons i "is")
  from Cons.prems obtain st2 T Ts1 where s: "sub st S [int i] = Inr (st2, T)"
    and r: "sub_each st2 S is = Inr (st1, Ts1)" and Ts: "Ts = Sys T # Ts1"
    by (auto simp: bindE_Inr_iff)
  from s have "shape_inv T" by (rule sub_shape_inv)
  with Cons.IH[OF r] Ts show ?case by (simp add: is_Sys_inv_def)
qed

lemma iter_default_shape_inv:
  "iter_default st S = Inr (st1, Ts) \<Longrightarrow> \<forall>x \<in> set Ts. is_Sys_inv x"
  by (simp add: iter_default_def iter_es_def sub_each_shape_inv)

lemma length_row: "length (flat M) = nr M * nc M \<Longrightarrow> i < nr M \<Longrightarrow> length (row M i) = nc M"
proof -
  assume len: "length (flat M) = nr M * nc M" and i: "i < nr M"
  from i have "Suc i \<le> nr M" by simp
  then have "Suc i * nc M \<le> nr M * nc M" by (rule mult_le_mono1)
  then have "nc M \<le> nr M * nc M - i * nc M" by simp
  with len show ?thesis by (simp add: row_def)
qed

lemma length_concat_rows:
  "length (flat M) = nr M * nc M \<Longrightarrow> \<forall>j \<in> set js. j < nr M \<Longrightarrow>
   length (concat (map (row M) js)) = length js * nc M"
  by (induction js) (simp_all add: length_row)

lemma take_v_shape:
  assumes "length (flat (es_v S)) = nr (es_v S) * nc (es_v S)" and "take_v S key = Inr v1"
  shows "nr v1 = length key \<and> nc v1 = nc (es_v S) \<and> length (flat v1) = nr v1 * nc v1"
proof -
  from assms(2) obtain js where js: "index_list (nr (es_v S)) key = Inr js"
    and v1: "v1 = \<lparr>nr = length js, nc = nc (es_v S), flat = concat (map (row (es_v S)) js)\<rparr>"
    by (auto simp: take_v_def bindE_Inr_iff)
  from js have "\<forall>j \<in> set js. j < nr (es_v S)" by (rule index_list_less)
  with assms(1) have "length (concat (map (row (es_v S)) js)) = length js * nc (es_v S)"
    by (rule length_concat_rows)
  with v1 index_list_length[OF js] show ?thesis by simp
qed

lemma take_e_length: "take_e S key = Inr e1 \<Longrightarrow> length e1 = length key"
  by (auto simp: take_e_def bindE_Inr_iff dest: index_list_length)

lemma sort_shape_inv:
  assumes "shape_inv S" and "sort_es argsort ascending S = Inr S1"
  shows "shape_inv S1"
proof -
  define idx where "idx = (if ascending then argsort (es_e S) else argsort (map uminus (es_e S)))"
  from assms(2) obtain e1 v1 where e1: "take_e S (map int idx) = Inr e1"
    and v1: "take_v S (map int idx) = Inr v1" and S1: "S1 = S\<lparr>es_e := e1, es_v := v1\<rparr>"
    by (auto simp: sort_es_def Let_def idx_def bindE_Inr_iff)
  from assms(1) have "length (flat (es_v S)) = nr (es_v S) * nc (es_v S)"
    by (simp add: shape_inv_def)
  from take_v_shape[OF this v1] take_e_length[OF e1] S1 show ?thesis
    by (simp add: shape_inv_def)
qed


section \<open>The shape invariant of EigenSystem\<close>

lemma ex_S_init: "EigenSystem_init [] [2, 1] [1, 0, 0, 1] None [] = Inr ([[]], ex_S)"
  by (simp add: EigenSystem_init_def ex_S_def mod_Suc div_Suc)

lemma ex_S_copy: "copy_es [[]] ex_S = Inr ([[], []], ex_S)"
  by (simp add: copy_es_def EigenSystem_init_def ex_S_def mod_Suc div_Suc)

lemma ex_S_sub:
  "sub [[]] ex_S [1] =
     Inr ([[], []], \<lparr>es_e = [1], es_v = \<lparr>nr = 1, nc = 2, flat = [0, 1]\<rparr>,
                     es_parent = None, es_info = 0\<rparr>)"
  by (simp add: sub_def take_e_def take_v_def norm_index_def row_def EigenSystem_init_def
      ex_S_def eval_nat_numeral)

lemma ex_S_getitem:
  "getitem [[]] ex_S [- 1, 0] =
     Inr ([[], []], \<lparr>es_e = [1, 2], es_v = \<lparr>nr = 2, nc = 2, flat = [0, 1, 1, 0]\<rparr>,
                     es_parent = None, es_info = 0\<rparr>)"
  by (simp add: getitem_def take_e_def take_v_def norm_index_def row_def EigenSystem_init_def
      ex_S_def mod_Suc div_Suc)

lemma ex_S_iter:
  "iter_default [[]] ex_S =
     Inr ([[], [], []],
          [Sys \<lparr>es_e = [2], es_v = \<lparr>nr = 1, nc = 2, flat = [1, 0]\<rparr>,
                 es_parent = None, es_info = 0\<rparr>,
           Sys \<lparr>es_e = [1], es_v = \<lparr>nr = 1, nc = 2, flat = [0, 1]\<rparr>,
                 es_parent = None, es_info = 0\<rparr>])"
  by (simp add: iter_default_def iter_es_def len_es_def sub_def take_e_def take_v_def
      norm_index_def row_def EigenSystem_init_def ex_S_def upt_rec eval_nat_numeral)

lemma ex_S_sort:
  "sort_es argsort_stable True ex_S =
     Inr \<lparr>es_e = [1, 2], es_v = \<lparr>nr = 2, nc = 2, flat = [0, 1, 1, 0]\<rparr>,
           es_parent = None, es_info = 0\<rparr>"
  by (simp add: sort_es_def argsort_stable_def take_e_def take_v_def norm_index_def row_def
      ex_S_def upt_rec)

text \<open>
  Claim C7. Every EigenSystem that the constructor, \<open>copy\<close>, \<open>sub\<close>, \<open>__getitem__\<close> or
  the iteration over single states returns, and every EigenSystem after an in-place
  \<open>sort\<close>, has as many eigenvector rows as eigenvalues: \<open>v\<close> has shape
  \<open>(len(e), size)\<close>. The five constructing operations establish this whatever they
  start from; \<open>sort\<close> keeps it.
\<close>

theorem shape_invariant:
  "(EigenSystem_init st e0 v0 p kw = Inr (st1, T1) \<longrightarrow> shape_inv T1) \<and>
   (copy_es st S = Inr (st2, T2) \<longrightarrow> shape_inv T2) \<and>
   (sub st S idx = Inr (st3, T3) \<longrightarrow> shape_inv T3) \<and>
   (getitem st S key = Inr (st4, T4) \<longrightarrow> shape_inv T4) \<and>
   (iter_default st S = Inr (st5, Ts) \<longrightarrow> (\<forall>x \<in> set Ts. is_Sys_inv x)) \<and>
   (shape_inv S \<and> sort_es argsort ascending S = Inr T6 \<longrightarrow> shape_inv T6)"
proof (intro conjI impI)
  assume "EigenSystem_init st e0 v0 p kw = Inr (st1, T1)"
  then show "shape_inv T1" by (rule init_shape_inv)
next
  assume "copy_es st S = Inr (st2, T2)"
  then show "shape_inv T2" by (rule copy_shape_inv)
next
  assume "sub st S idx = Inr (st3, T3)"
  then show "shape_inv T3" by (rule sub_shape_inv)
next
  assume "getitem st S key = Inr (st4, T4)"
  then show "shape_inv T4" by (rule getitem_shape_inv)
next
  assume "iter_default st S = Inr (st5, Ts)"
  then show "\<forall>x \<in> set Ts. is_Sys_inv x" by (rule iter_default_shape_inv)
next
  assume "shape_inv S \<and> sort_es argsort ascending S = Inr T6"
  then show "shape_inv T6" using sort_shape_inv by blast
qed

theorem shape_invariant_witness:
  "EigenSystem_init [] [2, 1] [1, 0, 0, 1] None [] = Inr ([[]], ex_S) \<and> shape_inv ex_S \<and>
   copy_es [[]] ex_S = Inr ([[], []], ex_S) \<and>
   (\<exists>st3 T3. sub [[]] ex_S [1] = Inr (st3, T3) \<and> shape_inv T3) \<and>
   (\<exists>st4 T4. getitem [[]] ex_S [- 1, 0] = Inr (st4, T4) \<and> shape_inv T4) \<and>
   (\<exists>st5 Ts. iter_default [[]] ex_S = Inr (st5, Ts) \<and> length Ts = 2 \<and>
       (\<forall>x \<in> set Ts. is_Sys_inv x)) \<and>
   (\<exists>T6. sort_es argsort_stable True ex_S = Inr T6 \<and> shape_inv T6)"
proof -
  note inst = shape_invariant [where st = "[[]]" and S = ex_S and idx = "[1]"
      and key = "[- 1, 0]" and argsort = argsort_stable and ascending = True]
  have i: "shape_inv ex_S"
    using shape_invariant [of "[]" "[2, 1]" "[1, 0, 0, 1]" None "[]" "[[]]" ex_S] ex_S_init
    by simp
  have s: "\<exists>st3 T3. sub [[]] ex_S [1] = Inr (st3, T3) \<and> shape_inv T3"
    using inst ex_S_sub by blast
  have g: "\<exists>st4 T4. getitem [[]] ex_S [- 1, 0] = Inr (st4, T4) \<and> shape_inv T4"
    using inst ex_S_getitem by blast
  have it: "\<exists>st5 Ts. iter_default [[]] ex_S = Inr (st5, Ts) \<and> length Ts = 2 \<and>
       (\<forall>x \<in> set Ts. is_Sys_inv x)"
    using inst [where ?st5.0 = "[[], [], []]"] ex_S_iter
    by (metis length_Cons list.size(3) numeral_2_eq_2)
  have so: "\<exists>T6. sort_es argsort_stable True ex_S = Inr T6 \<and> shape_inv T6"
    using inst i ex_S_sort by blast
  from ex_S_init i ex_S_copy s g it so show ?thesis by blast
qed

section \<open>Sorting an EigenSystem\<close>

lemma index_list_nat: "\<forall>j \<in> set js. j < n \<Longrightarrow> index_list n (map int js) = Inr js"
  by (induction js) (simp_all add: norm_index_def)

lemma argsort_ok_less: "argsort_ok A \<Longrightarrow> \<forall>j \<in> set (A xs). j < length xs"
proof
  fix j assume ok: "argsort_ok A" and j: "j \<in> set (A xs)"
  from ok have "mset (A xs) = mset [0..<length xs]" by (simp add: argsort_ok_def)
  then have "set (A xs) = set [0..<length xs]" by (rule mset_eq_setD)
  with j show "j < length xs" by simp
qed

lemma argsort_ok_length: "argsort_ok A \<Longrightarrow> length (A xs) = length xs"
proof -
  assume "argsort_ok A"
  then have "mset (A xs) = mset [0..<length xs]" by (simp add: argsort_ok_def)
  then have "length (A xs) = length [0..<length xs]" by (rule mset_eq_length)
  then show ?thesis by simp
qed

lemma row_concat:
  "\<forall>r \<in> set rs. length r = d \<Longrightarrow> i < length rs \<Longrightarrow> take d (drop (i * d) (concat rs)) = rs ! i"
proof (induction rs arbitrary: i)
  case Nil
  then show ?case by simp
next
  case (Cons r rs)
  show ?case
  proof (cases i)
    case 0
    with Cons.prems show ?thesis by simp
  next
    case (Suc k)
    with Cons.prems have "drop (i * d) (concat (r # rs)) = drop (k * d) (concat rs)"
      by simp
    with Cons Suc show ?thesis by simp
  qed
qed

lemma rows_concat:
  assumes "\<forall>r \<in> set rs. length r = d"
  shows "rows \<lparr>nr = length rs, nc = d, flat = concat rs\<rparr> = rs"
proof -
  have "rows \<lparr>nr = length rs, nc = d, flat = concat rs\<rparr>
        = map (\<lambda>i. take d (drop (i * d) (concat rs))) [0..<length rs]"
    by (simp add: rows_def row_def [abs_def])
  also have "\<dots> = map (\<lambda>i. rs ! i) [0..<length rs]"
    using assms by (simp add: row_concat)
  also have "\<dots> = rs" by (rule map_nth)
  finally show ?thesis .
qed

lemma rows_nth: "i < nr M \<Longrightarrow> rows M ! i = row M i"
  by (simp add: rows_def)

lemma length_rows [simp]: "length (rows M) = nr M"
  by (simp add: rows_def)

lemma mset_map_perm:
  assumes "mset idx = mset [0..<length xs]"
  shows "mset (map (\<lambda>i. xs ! i) idx) = mset xs"
proof -
  have "mset (map (\<lambda>i. xs ! i) idx) = image_mset (\<lambda>i. xs ! i) (mset idx)" by simp
  also have "\<dots> = image_mset (\<lambda>i. xs ! i) (mset [0..<length xs])" by (simp only: assms)
  also have "\<dots> = mset (map (\<lambda>i. xs ! i) [0..<length xs])" by simp
  also have "\<dots> = mset xs" by (simp only: map_nth)
  finally show ?thesis .
qed

lemma sorted_uminus_rev: "sorted (map uminus (ys :: real list)) \<longleftrightarrow> sorted (rev ys)"
  by (simp add: sorted_map sorted_wrt_rev)

lemma sort_idx_perm: "argsort_ok A \<Longrightarrow> mset (sort_idx A asc S) = mset [0..<length (es_e S)]"
  by (simp add: sort_idx_def argsort_ok_def)

lemma sort_idx_less: "argsort_ok A \<Longrightarrow> \<forall>j \<in> set (sort_idx A asc S). j < length (es_e S)"
  using argsort_ok_less[of A "es_e S"] argsort_ok_less[of A "map uminus (es_e S)"]
  by (simp add: sort_idx_def)

lemma sort_es_result:
  assumes "argsort_ok A" and "nr (es_v S) = length (es_e S)"
  shows "sort_es A asc S =
     Inr (S\<lparr>es_e := map (\<lambda>i. es_e S ! i) (sort_idx A asc S),
            es_v := \<lparr>nr = length (sort_idx A asc S), nc = nc (es_v S),
                     flat = concat (map (row (es_v S)) (sort_idx A asc S))\<rparr>\<rparr>)"
proof -
  from assms(1) have "index_list (length (es_e S)) (map int (sort_idx A asc S)) = Inr (sort_idx A asc S)"
    by (intro index_list_nat sort_idx_less)
  with assms(2) show ?thesis
    by (simp add: sort_es_def sort_idx_def[symmetric] Let_def take_e_def take_v_def)
qed

lemma sort_es_rows:
  assumes "argsort_ok A" and "shape_inv S"
  shows "rows \<lparr>nr = length (sort_idx A asc S), nc = nc (es_v S),
                flat = concat (map (row (es_v S)) (sort_idx A asc S))\<rparr>
         = map (\<lambda>i. rows (es_v S) ! i) (sort_idx A asc S)"
proof -
  let ?idx = "sort_idx A asc S"
  from assms have less: "\<forall>j \<in> set ?idx. j < nr (es_v S)"
    using sort_idx_less[of A asc S] by (simp add: shape_inv_def)
  with assms(2) have "\<forall>r \<in> set (map (row (es_v S)) ?idx). length r = nc (es_v S)"
    by (simp add: shape_inv_def length_row)
  from rows_concat[OF this] have "rows \<lparr>nr = length ?idx, nc = nc (es_v S),
                flat = concat (map (row (es_v S)) ?idx)\<rparr> = map (row (es_v S)) ?idx"
    by simp
  also from less have "\<dots> = map (\<lambda>i. rows (es_v S) ! i) ?idx"
    by (simp add: rows_nth)
  finally show ?thesis .
qed

lemma sort_es_sorted:
  assumes "argsort_ok A"
  shows "if asc then sorted (map (\<lambda>i. es_e S ! i) (sort_idx A asc S))
         else sorted (rev (map (\<lambda>i. es_e S ! i) (sort_idx A asc S)))"
proof (cases asc)
  case True
  with assms show ?thesis by (simp add: sort_idx_def argsort_ok_def)
next
  case False
  let ?idx = "A (map uminus (es_e S))"
  from assms have "sorted (map (\<lambda>i. map uminus (es_e S) ! i) ?idx)"
    by (simp add: argsort_ok_def)
  moreover from assms have "\<forall>j \<in> set ?idx. j < length (es_e S)"
    using argsort_ok_less[of A "map uminus (es_e S)"] by simp
  then have "map (\<lambda>i. map uminus (es_e S) ! i) ?idx = map uminus (map (\<lambda>i. es_e S ! i) ?idx)"
    by simp
  ultimately have "sorted (rev (map (\<lambda>i. es_e S ! i) ?idx))"
    by (simp only: sorted_uminus_rev)
  with False show ?thesis by (simp add: sort_idx_def)
qed

lemma zip_map_nth:
  "length xs = length ys \<Longrightarrow> \<forall>j \<in> set idx. j < length xs \<Longrightarrow>
   zip (map (\<lambda>i. xs ! i) idx) (map (\<lambda>i. ys ! i) idx) = map (\<lambda>i. zip xs ys ! i) idx"
  by (induction idx) simp_all

lemma argsort_stable_ok: "argsort_ok argsort_stable"
  by (simp add: argsort_ok_def argsort_stable_def)



lemma sort_es_pairs:
  assumes "argsort_ok A" and "shape_inv S" and "sort_es A asc S = Inr T"
  shows "es_e T = map (\<lambda>i. es_e S ! i) (sort_idx A asc S)"
    and "rows (es_v T) = map (\<lambda>i. rows (es_v S) ! i) (sort_idx A asc S)"
    and "pairs T = map (\<lambda>i. pairs S ! i) (sort_idx A asc S)"
proof -
  from assms(2) have nr: "nr (es_v S) = length (es_e S)" by (simp add: shape_inv_def)
  from sort_es_result[OF assms(1) nr, of asc] assms(3)
  have T: "T = S\<lparr>es_e := map (\<lambda>i. es_e S ! i) (sort_idx A asc S),
            es_v := \<lparr>nr = length (sort_idx A asc S), nc = nc (es_v S),
                     flat = concat (map (row (es_v S)) (sort_idx A asc S))\<rparr>\<rparr>" by simp
  then show e: "es_e T = map (\<lambda>i. es_e S ! i) (sort_idx A asc S)" by simp
  from T sort_es_rows[OF assms(1,2), of asc]
  show r: "rows (es_v T) = map (\<lambda>i. rows (es_v S) ! i) (sort_idx A asc S)" by simp
  from nr have "length (es_e S) = length (rows (es_v S))" by simp
  from zip_map_nth[OF this sort_idx_less[OF assms(1)]] e r
  show "pairs T = map (\<lambda>i. pairs S ! i) (sort_idx A asc S)" by (simp add: pairs_def)
qed











section \<open>Sorting twice, and selecting everything\<close>

lemma concat_slices: "concat (map (\<lambda>i. take d (drop (i * d) xs)) [0..<n]) = take (n * d) xs"
proof (induction n)
  case 0
  then show ?case by simp
next
  case (Suc n)
  have "take (n * d + d) xs = take (n * d) xs @ take d (drop (n * d) xs)"
    by (rule take_add)
  with Suc show ?case by (simp add: add.commute)
qed

lemma concat_rows_all:
  assumes "length (flat M) = nr M * nc M"
  shows "concat (map (row M) [0..<nr M]) = flat M"
proof -
  have "concat (map (row M) [0..<nr M]) = take (nr M * nc M) (flat M)"
    using concat_slices[of "nc M" "flat M" "nr M"] by (simp add: row_def [abs_def])
  with assms show ?thesis by simp
qed

lemma init_valid: "EigenSystem_init st e0 v0 p kw = Inr (st1, S) \<Longrightarrow> valid_es S"
  by (auto simp: EigenSystem_init_def valid_es_def shape_inv_def Let_def split: if_splits)

lemma sub_all:
  assumes "valid_es S"
  shows "sub st S (map int [0..<len_es S]) = Inr (st @ [[]], S)"
proof -
  let ?n = "length (es_e S)"
  from assms have n: "?n \<noteq> 0" and nr: "nr (es_v S) = ?n"
    and len: "length (flat (es_v S)) = nr (es_v S) * nc (es_v S)"
    by (simp_all add: valid_es_def shape_inv_def)
  have il: "index_list ?n (map int [0..<?n]) = Inr [0..<?n]"
    by (rule index_list_nat) simp
  have e: "take_e S (map int [0..<?n]) = Inr (es_e S)"
    by (simp add: take_e_def il map_nth)
  have v: "take_v S (map int [0..<?n]) = Inr \<lparr>nr = ?n, nc = nc (es_v S), flat = flat (es_v S)\<rparr>"
    using concat_rows_all[OF len] by (simp add: take_v_def nr il)
  have i: "EigenSystem_init st (es_e S) (flat (es_v S)) (es_parent S) [] =
     Inr (st @ [[]], \<lparr>es_e = es_e S, es_v = \<lparr>nr = ?n, nc = nc (es_v S), flat = flat (es_v S)\<rparr>,
           es_parent = es_parent S, es_info = length st\<rparr>)"
    using n nr len by (simp add: EigenSystem_init_def)
  have "\<lparr>nr = ?n, nc = nc (es_v S), flat = flat (es_v S)\<rparr> = es_v S"
    using nr by simp
  then have "\<lparr>es_e = es_e S, es_v = \<lparr>nr = ?n, nc = nc (es_v S), flat = flat (es_v S)\<rparr>,
           es_parent = es_parent S, es_info = es_info S\<rparr> = S" by simp
  with e v i show ?thesis by (simp add: sub_def len_es_def)
qed

lemma sort_es_total:
  assumes "argsort_ok A" and "shape_inv S"
  obtains T where "sort_es A asc S = Inr T"
proof -
  from assms(2) have "nr (es_v S) = length (es_e S)" by (simp add: shape_inv_def)
  from sort_es_result[OF assms(1) this, of asc] show ?thesis using that by blast
qed

lemma sort_es_mset:
  assumes "argsort_ok A" and "shape_inv S" and "sort_es A asc S = Inr T"
  shows "mset (es_e T) = mset (es_e S)"
  using sort_es_pairs(1)[OF assms] mset_map_perm[OF sort_idx_perm[OF assms(1), of asc S]]
  by simp

lemma sort_es_order:
  assumes "argsort_ok A" and "shape_inv S" and "sort_es A asc S = Inr T"
  shows "if asc then sorted (es_e T) else sorted (rev (es_e T))"
  using sort_es_sorted[OF assms(1), of asc S] sort_es_pairs(1)[OF assms] by (cases asc) simp_all

text \<open>
  Claim C6. For every EigenSystem, \<open>sort(ascending=True)\<close> followed by
  \<open>sort(ascending=False)\<close> leaves the eigenvalues in exactly the reverse of their order
  after the first call, and \<open>sub\<close> of the full index list \<open>[0, ..., len-1]\<close> returns an
  EigenSystem equal to the original (the store gains the constructor's fresh keyword
  dict, which nothing refers to).
\<close>

theorem sort_twice_reverses_and_sub_all:
  assumes "argsort_ok A" and "valid_es S"
  shows "(\<exists>S1 S2. sort_es A True S = Inr S1 \<and> sort_es A False S1 = Inr S2 \<and>
            es_e S2 = rev (es_e S1)) \<and>
         sub st S (map int [0..<len_es S]) = Inr (st @ [[]], S)"
proof -
  from assms(2) have inv: "shape_inv S" by (simp add: valid_es_def)
  from sort_es_total[OF assms(1) inv] obtain S1 where S1: "sort_es A True S = Inr S1" .
  from sort_shape_inv[OF inv S1] have inv1: "shape_inv S1" .
  from sort_es_total[OF assms(1) inv1] obtain S2 where S2: "sort_es A False S1 = Inr S2" .
  from sort_es_order[OF assms(1) inv S1] have s1: "sorted (es_e S1)" by simp
  from sort_es_order[OF assms(1) inv1 S2] have s2: "sorted (rev (es_e S2))" by simp
  from sort_es_mset[OF assms(1) inv1 S2] have "mset (rev (es_e S2)) = mset (es_e S1)" by simp
  from properties_for_sort[OF this s2] have "sort (es_e S1) = rev (es_e S2)" .
  with s1 have "es_e S1 = rev (es_e S2)" by (simp add: sorted_sort_id)
  then have "es_e S2 = rev (es_e S1)" by simp
  with S1 S2 sub_all[OF assms(2)] show ?thesis by blast
qed

lemma ex_S_valid: "valid_es ex_S"
  using ex_S_init by (rule init_valid)

theorem sort_twice_reverses_and_sub_all_witness:
  "argsort_ok argsort_stable \<and> valid_es ex_S \<and>
   (\<exists>S1 S2. sort_es argsort_stable True ex_S = Inr S1 \<and> es_e S1 = [1, 2] \<and>
       sort_es argsort_stable False S1 = Inr S2 \<and> es_e S2 = [2, 1]) \<and>
   sub [[]] ex_S [0, 1] = Inr ([[], []], ex_S)"
proof -
  note t = sort_twice_reverses_and_sub_all [OF argsort_stable_ok ex_S_valid, of "[[]]"]
  from t ex_S_sort have "\<exists>S1 S2. sort_es argsort_stable True ex_S = Inr S1 \<and> es_e S1 = [1, 2] \<and>
       sort_es argsort_stable False S1 = Inr S2 \<and> es_e S2 = [2, 1]"
    by auto
  moreover from t have "sub [[]] ex_S [0, 1] = Inr ([[], []], ex_S)"
    by (simp add: len_es_def ex_S_def upt_rec)
  ultimately show ?thesis using argsort_stable_ok ex_S_valid by blast
qed

section \<open>Selecting states\<close>

lemma select_result:
  assumes inv: "shape_inv S" and ne: "idx \<noteq> []" and js: "index_list (len_es S) idx = Inr js"
  shows "bindE (take_e S idx) (\<lambda>e1.
     bindE (take_v S idx) (\<lambda>v1.
     bindE (EigenSystem_init st e1 (flat v1) (es_parent S) [])
       (\<lambda>(st1, T). Inr (st1, T\<lparr>es_info := es_info S\<rparr>)))) =
     Inr (st @ [[]],
          \<lparr>es_e = map (\<lambda>j. es_e S ! j) js,
           es_v = \<lparr>nr = length js, nc = nc (es_v S), flat = concat (map (row (es_v S)) js)\<rparr>,
           es_parent = es_parent S, es_info = es_info S\<rparr>)"
proof -
  from inv have nr: "nr (es_v S) = length (es_e S)"
    and len: "length (flat (es_v S)) = nr (es_v S) * nc (es_v S)"
    by (simp_all add: shape_inv_def)
  from js have js': "index_list (length (es_e S)) idx = Inr js" by (simp add: len_es_def)
  from index_list_length[OF js'] ne have n: "length js \<noteq> 0" by simp
  from index_list_less[OF js'] nr have "\<forall>j \<in> set js. j < nr (es_v S)" by simp
  from length_concat_rows[OF len this]
  have fl: "length (concat (map (row (es_v S)) js)) = length js * nc (es_v S)" .
  show ?thesis
    using n by (simp add: take_e_def take_v_def nr js' EigenSystem_init_def fl)
qed

text \<open>
  Claim C2, as amended. For every EigenSystem \<open>S\<close> and every non-empty index sequence
  whose entries lie in \<open>[-len, len)\<close> (negative ones counting from the end, \<open>js\<close> the
  positions they denote), \<open>sub\<close> and \<open>__getitem__\<close> return the same new EigenSystem: its
  eigenvalues and eigenvector rows are those of \<open>S\<close> at \<open>js\<close>, in that order, in arrays of
  its own; \<open>S\<close> and every dict of the store are as before (the store only gains the
  constructor's keyword dict); but \<open>info\<close> of the new object is the very dict of \<open>S\<close>,
  and \<open>parent\<close> the same handle.
\<close>

theorem sub_selects_and_shares_info:
  assumes "shape_inv S" and "idx \<noteq> []" and "index_list (len_es S) idx = Inr js"
  shows "\<exists>T. sub st S idx = Inr (st @ [[]], T) \<and> getitem st S idx = Inr (st @ [[]], T) \<and>
           es_e T = map (\<lambda>j. es_e S ! j) js \<and>
           rows (es_v T) = map (\<lambda>j. rows (es_v S) ! j) js \<and>
           es_parent T = es_parent S \<and> es_info T = es_info S"
proof -
  let ?T = "\<lparr>es_e = map (\<lambda>j. es_e S ! j) js,
           es_v = \<lparr>nr = length js, nc = nc (es_v S), flat = concat (map (row (es_v S)) js)\<rparr>,
           es_parent = es_parent S, es_info = es_info S\<rparr>"
  from assms(1) have nr: "nr (es_v S) = length (es_e S)"
    and len: "length (flat (es_v S)) = nr (es_v S) * nc (es_v S)"
    by (simp_all add: shape_inv_def)
  from assms(3) have "\<forall>j \<in> set js. j < nr (es_v S)"
    using index_list_less[of "len_es S" idx js] nr by (simp add: len_es_def)
  then have less: "\<forall>j \<in> set js. j < nr (es_v S)" .
  with len have "\<forall>r \<in> set (map (row (es_v S)) js). length r = nc (es_v S)"
    by (simp add: length_row)
  from rows_concat[OF this] less
  have "rows (es_v ?T) = map (\<lambda>j. rows (es_v S) ! j) js" by (simp add: rows_nth)
  moreover have "sub st S idx = Inr (st @ [[]], ?T)"
    unfolding sub_def by (rule select_result[OF assms])
  moreover have "getitem st S idx = Inr (st @ [[]], ?T)"
    unfolding getitem_def by (rule select_result[OF assms])
  ultimately show ?thesis by (intro exI[of _ ?T]) simp
qed

lemma ex_S_inv: "shape_inv ex_S"
  by (simp add: shape_inv_def ex_S_def)

theorem sub_selects_and_shares_info_witness:
  "shape_inv ex_S \<and> [- 1, 0] \<noteq> ([] :: int list) \<and> index_list (len_es ex_S) [- 1, 0] = Inr [1, 0] \<and>
   (\<exists>T. sub [[]] ex_S [- 1, 0] = Inr ([[], []], T) \<and> getitem [[]] ex_S [- 1, 0] = Inr ([[], []], T) \<and>
        es_e T = [1, 2] \<and> rows (es_v T) = [[0, 1], [1, 0]] \<and> es_info T = es_info ex_S)"
proof -
  have il: "index_list (len_es ex_S) [- 1, 0] = Inr [1, 0]"
    by (simp add: len_es_def ex_S_def norm_index_def)
  have ne: "[- 1, 0] \<noteq> ([] :: int list)" by simp
  have r: "rows (es_v ex_S) = [[1, 0], [0, 1]]"
    by (simp add: rows_def row_def ex_S_def upt_rec)
  have e: "es_e ex_S = [2, 1]" by (simp add: ex_S_def)
  have "\<exists>T. sub [[]] ex_S [- 1, 0] = Inr ([[], []], T) \<and>
        getitem [[]] ex_S [- 1, 0] = Inr ([[], []], T) \<and>
        es_e T = [1, 2] \<and> rows (es_v T) = [[0, 1], [1, 0]] \<and> es_info T = es_info ex_S"
  proof -
    from sub_selects_and_shares_info [OF ex_S_inv ne il, of "[[]]"]
    obtain T where "sub [[]] ex_S [- 1, 0] = Inr ([[]] @ [[]], T)"
      and "getitem [[]] ex_S [- 1, 0] = Inr ([[]] @ [[]], T)"
      and "es_e T = map (\<lambda>j. es_e ex_S ! j) [1, 0]"
      and "rows (es_v T) = map (\<lambda>j. rows (es_v ex_S) ! j) [1, 0]"
      and "es_info T = es_info ex_S" by blast
    then show ?thesis by (simp add: r e)
  qed
  with ex_S_inv ne il show ?thesis by blast
qed

text \<open>
  Claim C2 as stated fails. The EigenSystem that \<open>sub\<close> returns holds the address of the
  \<open>info\<close> dict of the original, so a write through the new object is read through the
  original: mutable state is shared. And the empty index sequence returns nothing:
  the constructor raises ValueError.
\<close>

theorem sub_shares_info_counterexample:
  "sub [[]] ex_S [0] =
     Inr ([[], []], \<lparr>es_e = [2], es_v = \<lparr>nr = 1, nc = 2, flat = [1, 0]\<rparr>,
                     es_parent = None, es_info = es_info ex_S\<rparr>) \<and>
   dict_at [[], []] (es_info ex_S) = [] \<and>
   dict_at (dict_setitem [[], []] (es_info ex_S) ''tag'' ''changed'') (es_info ex_S)
     = [(''tag'', ''changed'')] \<and>
   sub [[]] ex_S [] = Inl ValueError"
  by (simp add: sub_def take_e_def take_v_def norm_index_def row_def EigenSystem_init_def
      ex_S_def dict_at_def dict_setitem_def)

section \<open>The outer product\<close>

lemma madd_tab: "madd (tab d f) (tab d g) = tab d (\<lambda>a b. f a b + g a b)"
  by (simp add: madd_def tab_def map2_map_map)

lemma outer_ev_tab:
  "length vec = d \<Longrightarrow> outer_ev ev vec = tab d (\<lambda>a b. of_real ev * (vec ! a) * cnj (vec ! b))"
  by (simp add: outer_ev_def np_outer_def tab_def list_eq_iff_nth_eq mult.commute)

lemma outer_at_tab:
  assumes "shape_inv S" and "norm_index (len_es S) i = Inr j"
  shows "outer_at S i = Inr (tab (size_es S) (outer_entry S j))"
proof -
  from assms(1) have nr: "nr (es_v S) = length (es_e S)"
    and len: "length (flat (es_v S)) = nr (es_v S) * nc (es_v S)"
    by (simp_all add: shape_inv_def)
  from assms(2) have n: "norm_index (length (es_e S)) i = Inr j" by (simp add: len_es_def)
  from norm_index_less[OF n] nr have "j < nr (es_v S)" by simp
  from length_row[OF len this] have "length (row (es_v S) j) = size_es S"
    by (simp add: size_es_def)
  from outer_ev_tab[OF this] show ?thesis
    by (simp add: outer_at_def n nr outer_entry_def [abs_def])
qed

lemma outer_loop_tab:
  assumes "shape_inv S"
  shows "index_list (len_es S) idx = Inr js \<Longrightarrow>
    outer_loop S (tab (size_es S) f) idx =
      Inr (tab (size_es S) (\<lambda>a b. f a b + (\<Sum>j\<leftarrow>js. outer_entry S j a b)))"
proof (induction idx arbitrary: f js)
  case Nil
  then show ?case by simp
next
  case (Cons i "is")
  from Cons.prems obtain j js1 where j: "norm_index (len_es S) i = Inr j"
    and js1: "index_list (len_es S) is = Inr js1" and js: "js = j # js1"
    by (auto simp: bindE_Inr_iff)
  from outer_at_tab[OF assms j] Cons.IH[OF js1] js show ?case
    by (simp add: madd_tab add.assoc)
qed

lemma outer_es_Some:
  assumes "shape_inv S" and "idx \<noteq> []" and "index_list (len_es S) idx = Inr js"
  shows "outer_es S (Some idx) = Inr (outer_sum S js)"
proof -
  from assms(2) obtain i "is" where idx: "idx = i # is" by (cases idx) auto
  with assms(3) obtain j js1 where j: "norm_index (len_es S) i = Inr j"
    and js1: "index_list (len_es S) is = Inr js1" and js: "js = j # js1"
    by (auto simp: bindE_Inr_iff)
  from outer_at_tab[OF assms(1) j] outer_loop_tab[OF assms(1) js1] idx js show ?thesis
    by (simp add: outer_es_def outer_sum_def)
qed

lemma outer_es_None:
  assumes "valid_es S"
  shows "outer_es S None = Inr (outer_sum S [0..<len_es S])"
proof -
  from assms have inv: "shape_inv S" and ne: "0 < len_es S"
    by (simp_all add: valid_es_def len_es_def)
  from ne have z: "norm_index (len_es S) 0 = Inr 0" by (simp add: norm_index_def)
  have il: "index_list (len_es S) (map int [1..<len_es S]) = Inr [1..<len_es S]"
    by (rule index_list_nat) simp
  from ne have "[0..<len_es S] = 0 # [1..<len_es S]" by (simp add: upt_rec)
  with outer_at_tab[OF inv z] outer_loop_tab[OF inv il] show ?thesis
    by (simp add: outer_es_def outer_sum_def)
qed

lemma ex_diag_valid: "valid_es ex_diag"
  by (simp add: valid_es_def shape_inv_def ex_diag_def)

lemma ex_diag_outer_sum: "outer_sum ex_diag [0..<len_es ex_diag] = [[1, 0], [0, 2]]"
  by (simp add: outer_sum_def tab_def outer_entry_def size_es_def len_es_def row_def ex_diag_def
      upt_rec)

text \<open>
  Claim C3, as amended. For every EigenSystem, \<open>outer()\<close> returns the size-by-size matrix
  whose entries are the sums over all contained states of
  \<open>e\<^sub>i * v\<^sub>i[a] * conj(v\<^sub>i[b])\<close>, and \<open>outer(idx)\<close> returns the same sum over the selected
  states for every non-empty selection whose indices lie in \<open>[-len, len)\<close>. For
  eigenvalues \<open>[1, 2]\<close> with the identity as eigenvectors, \<open>outer()\<close> is \<open>diag(1, 2)\<close>.
\<close>

theorem outer_is_weighted_sum:
  assumes "valid_es S" and "idx \<noteq> []" and "index_list (len_es S) idx = Inr js"
  shows "outer_es S None = Inr (outer_sum S [0..<len_es S]) \<and>
         outer_es S (Some idx) = Inr (outer_sum S js) \<and>
         outer_es ex_diag None = Inr [[1, 0], [0, 2]]"
proof -
  from assms(1) have "shape_inv S" by (simp add: valid_es_def)
  from outer_es_Some[OF this assms(2,3)] outer_es_None[OF assms(1)]
    outer_es_None[OF ex_diag_valid] ex_diag_outer_sum
  show ?thesis by simp
qed

text \<open>
  Claim C3 as stated fails on the empty selection: the sum over no state is the zero
  matrix, but \<open>outer\<close> reads \<open>idx[0]\<close> first and raises IndexError.
\<close>

theorem outer_empty_selection_counterexample:
  "valid_es ex_diag \<and> outer_es ex_diag (Some []) = Inl IndexError"
  using ex_diag_valid by (simp add: outer_es_def)

theorem outer_is_weighted_sum_witness:
  "valid_es ex_diag \<and> [- 1] \<noteq> ([] :: int list) \<and> index_list (len_es ex_diag) [- 1] = Inr [1] \<and>
   outer_es ex_diag None = Inr [[1, 0], [0, 2]] \<and>
   outer_es ex_diag (Some [- 1]) = Inr [[0, 0], [0, 2]]"
proof -
  have il: "index_list (len_es ex_diag) [- 1] = Inr [1]"
    by (simp add: len_es_def ex_diag_def norm_index_def)
  have ne: "[- 1] \<noteq> ([] :: int list)" by simp
  have s: "outer_sum ex_diag [1] = [[0, 0], [0, 2]]"
    by (simp add: outer_sum_def tab_def outer_entry_def size_es_def row_def ex_diag_def upt_rec)
  note t = outer_is_weighted_sum [OF ex_diag_valid ne il]
  from t have a: "outer_es ex_diag None = Inr [[1, 0], [0, 2]]" by blast
  from t have b: "outer_es ex_diag (Some [- 1]) = Inr [[0, 0], [0, 2]]" by (simp only: s)
  from ex_diag_valid ne il a b show ?thesis by blast
qed

section \<open>Nearest energy and k-point\<close>

lemma argmin_loop_bounds:
  "best < i \<Longrightarrow> argmin_loop xs i best bv = best \<or>
     (i \<le> argmin_loop xs i best bv \<and> argmin_loop xs i best bv < i + length xs)"
proof (induction xs arbitrary: i best bv)
  case Nil
  then show ?case by simp
next
  case (Cons x xs)
  have "i < Suc i" by simp
  from Cons.IH[OF this, of x] Cons.IH[of best "Suc i" bv] Cons.prems
  show ?case by (cases "x < bv") auto
qed

text \<open>The value at the position the loop returns, given the list seen so far.\<close>

lemma argmin_loop_min:
  assumes "length pre = i" and "best < i" and "pre ! best = bv"
  shows "\<forall>y \<in> set xs \<union> {bv}. (pre @ xs) ! argmin_loop xs i best bv \<le> y"
  using assms
proof (induction xs arbitrary: i best bv pre)
  case Nil
  then show ?case by (simp add: nth_append)
next
  case (Cons x xs)
  let ?pre = "pre @ [x]"
  show ?case
  proof (cases "x < bv")
    case True
    from Cons.prems have "length ?pre = Suc i" and "i < Suc i" and "?pre ! i = x"
      by (auto simp: nth_append)
    from Cons.IH[OF this] True show ?thesis by auto
  next
    case False
    from Cons.prems have "length ?pre = Suc i" and "best < Suc i" and "?pre ! best = bv"
      by (simp_all add: nth_append)
    from Cons.IH[OF this] False show ?thesis by auto
  qed
qed

lemma argmin_spec:
  assumes "xs \<noteq> []"
  obtains j where "argmin xs = Inr j" and "j < length xs" and "\<forall>y \<in> set xs. xs ! j \<le> y"
proof -
  from assms obtain x ys where xs: "xs = x # ys" by (cases xs) auto
  let ?j = "argmin_loop ys 1 0 x"
  have a: "argmin xs = Inr ?j" by (simp add: argmin_def xs)
  have "?j = 0 \<or> (1 \<le> ?j \<and> ?j < 1 + length ys)"
    by (rule argmin_loop_bounds) simp
  then have b: "?j < length xs" by (auto simp: xs)
  have "\<forall>y \<in> set ys \<union> {x}. ([x] @ ys) ! ?j \<le> y"
    by (rule argmin_loop_min) simp_all
  then have c: "\<forall>y \<in> set xs. xs ! ?j \<le> y" by (simp add: xs)
  from a b c show ?thesis by (rule that)
qed

lemma Eindex_closest_spec:
  assumes "tf_E F \<noteq> []"
  shows "\<exists>j. j < length (tf_E F) \<and>
           Eindex_closest F x = Inr (int j, 1 / 1000 < \<bar>tf_E F ! j - x\<bar>) \<and>
           (\<forall>y \<in> set (tf_E F). \<bar>tf_E F ! j - x\<bar> \<le> \<bar>y - x\<bar>)"
proof -
  let ?d = "map (\<lambda>y. \<bar>y - x\<bar>) (tf_E F)"
  from assms have "?d \<noteq> []" by simp
  then obtain j where j: "argmin ?d = Inr j" and lt: "j < length ?d"
    and mn: "\<forall>y \<in> set ?d. ?d ! j \<le> y" by (rule argmin_spec)
  from lt have lt': "j < length (tf_E F)" by simp
  with mn have "\<forall>y \<in> set (tf_E F). \<bar>tf_E F ! j - x\<bar> \<le> \<bar>y - x\<bar>" by simp
  with j lt' show ?thesis by (auto simp: Eindex_closest_def)
qed

lemma kindex_spec:
  assumes "tf_k F \<noteq> []"
  shows "\<exists>j. j < length (tf_k F) \<and>
           kindex F k = Inr (int j, \<not> allclose (tf_k F ! j) k) \<and>
           (\<forall>q \<in> set (tf_k F). dist1 (tf_k F ! j) k \<le> dist1 q k)"
proof -
  let ?d = "map (\<lambda>q. dist1 q k) (tf_k F)"
  from assms have "?d \<noteq> []" by simp
  then obtain j where j: "argmin ?d = Inr j" and lt: "j < length ?d"
    and mn: "\<forall>y \<in> set ?d. ?d ! j \<le> y" by (rule argmin_spec)
  from lt have lt': "j < length (tf_k F)" by simp
  with mn have "\<forall>q \<in> set (tf_k F). dist1 (tf_k F ! j) k \<le> dist1 q k" by simp
  with j lt' show ?thesis by (auto simp: kindex_def)
qed

text \<open>
  Claim C4, as amended. On a file with at least one energy point and one k-point,
  \<open>Eindex\<close> of an integer or a float and \<open>kindex\<close> of a k-point never fail. An integer
  energy is returned unchanged, without a warning. A float energy gives the index of the
  stored energy nearest to it, with a UserWarning exactly when that energy differs from
  the query by more than \<open>1e-3\<close> eV. A k-point gives the index of the stored k-point
  nearest to it (in the sum of the absolute component differences), with a UserWarning
  exactly when \<open>np.allclose\<close> fails: when some component differs by more than
  \<open>1e-4 + 1e-5 * |k\<^sub>i|\<close>.
\<close>

theorem lookups_nearest_and_warn:
  assumes "tf_E F \<noteq> []" and "tf_k F \<noteq> []"
  shows "Eindex F (EInt i) = Inr (i, False) \<and>
         (\<exists>j. j < length (tf_E F) \<and>
               Eindex F (EFloat x) = Inr (int j, 1 / 1000 < \<bar>tf_E F ! j - x\<bar>) \<and>
               (\<forall>y \<in> set (tf_E F). \<bar>tf_E F ! j - x\<bar> \<le> \<bar>y - x\<bar>)) \<and>
         (\<exists>j. j < length (tf_k F) \<and>
               kindex F k = Inr (int j, \<not> allclose (tf_k F ! j) k) \<and>
               (\<forall>q \<in> set (tf_k F). dist1 (tf_k F ! j) k \<le> dist1 q k))"
  using Eindex_closest_spec[OF assms(1), of x] kindex_spec[OF assms(2), of k]
  by (simp add: Eindex_def)

lemma ex_grid_Eindex: "Eindex ex_grid (EFloat (12 / 100)) = Inr (1, True)"
  by (simp add: Eindex_def Eindex_closest_def argmin_def ex_grid_def)

lemma ex_grid_kindex: "kindex ex_grid (1 / 2, 0, 0) = Inr (0, False)"
  by (simp add: kindex_def argmin_def allclose_def isclose_def ex_grid_def)

theorem lookups_nearest_and_warn_witness:
  "tf_E ex_grid \<noteq> [] \<and> tf_k ex_grid \<noteq> [] \<and> Eindex ex_grid (EInt 7) = Inr (7, False) \<and>
   Eindex ex_grid (EFloat (12 / 100)) = Inr (1, True) \<and>
   kindex ex_grid (1 / 2, 0, 0) = Inr (0, False)"
proof -
  have e: "tf_E ex_grid \<noteq> []" and k: "tf_k ex_grid \<noteq> []" by (simp_all add: ex_grid_def)
  from lookups_nearest_and_warn [OF e k, of 7] have "Eindex ex_grid (EInt 7) = Inr (7, False)"
    by blast
  with e k ex_grid_Eindex ex_grid_kindex show ?thesis by blast
qed

text \<open>
  Claim C4 as stated fails. The stored k-point \<open>(0.5, 0, 0)\<close> differs from the query
  \<open>(0.500102, 0, 0)\<close> by more than \<open>1e-4\<close> in the first component, yet no warning is
  emitted, because \<open>np.allclose\<close> adds \<open>1e-5 * |k\<^sub>i|\<close> to the tolerance. And the lookups do
  fail: on an empty energy grid or k-point list \<open>argmin\<close> raises ValueError, and a string
  that \<open>float\<close> cannot read raises ValueError.
\<close>

theorem kindex_tolerance_counterexample:
  "kindex ex_grid (500102 / 1000000, 0, 0) = Inr (0, False) \<and>
   \<bar>1 / 2 - 500102 / 1000000\<bar> > (1 / 10000 :: real) \<and>
   Eindex (ex_grid\<lparr>tf_E := []\<rparr>) (EFloat 0) = Inl ValueError \<and>
   kindex (ex_grid\<lparr>tf_k := []\<rparr>) (0, 0, 0) = Inl ValueError \<and>
   Eindex ex_grid (EStr ''abc'' None) = Inl ValueError"
  by (simp add: kindex_def Eindex_def Eindex_closest_def argmin_def allclose_def isclose_def
      ex_grid_def)

section \<open>The sort flag of pivot\<close>

text \<open>
  Claim C9. Without an electrode and with \<open>in_device=True\<close>, \<open>pivot\<close> returns the same
  for \<open>sort=True\<close> and \<open>sort=False\<close>, whatever the file holds, whereas the full table
  (\<open>in_device=False\<close>) is sorted on request; with an electrode the flag changes the
  result, both with \<open>in_device=True\<close> (on the docstring's file: positions \<open>[0, 1]\<close>
  instead of \<open>[0, 4]\<close>) and with \<open>in_device=False\<close>.
\<close>

theorem pivot_sort_flag_asymmetric:
  "pivot F None True True = pivot F None True False \<and>
   pivot ex_se_file None False True \<noteq> pivot ex_se_file None False False \<and>
   pivot ex_se_file (Some (ElecInt 0)) True True \<noteq> pivot ex_se_file (Some (ElecInt 0)) True False \<and>
   pivot ex_se_file (Some (ElecStr ''Right'' None)) False True
     \<noteq> pivot ex_se_file (Some (ElecStr ''Right'' None)) False False"
proof -
  have a: "pivot F None True True = pivot F None True False"
    by (simp add: pivot_def)
  have f: "pivot ex_se_file None False True = Inr [2, 3, 4, 5, 6]"
    by code_simp
  have g: "pivot ex_se_file None False False = Inr [3, 4, 6, 5, 2]"
    by code_simp
  have b: "pivot ex_se_file (Some (ElecInt 0)) True True = Inr [0, 1]"
    by code_simp
  have c: "pivot ex_se_file (Some (ElecInt 0)) True False = Inr [0, 4]"
    by code_simp
  have d: "pivot ex_se_file (Some (ElecStr ''Right'' None)) False True = Inr [4, 6]"
    by code_simp
  have e: "pivot ex_se_file (Some (ElecStr ''Right'' None)) False False = Inr [6, 4]"
    by code_simp
  from a b c d e f g show ?thesis by simp
qed

lemma ex_se_file_full_device: "pivot ex_se_file None True False = Inr [1, 2, 4, 3, 0]"
  by code_simp

theorem pivot_sort_flag_asymmetric_witness:
  "pivot ex_se_file None True True = Inr [1, 2, 4, 3, 0] \<and>
   pivot ex_se_file None True False = Inr [1, 2, 4, 3, 0]"
  using pivot_sort_flag_asymmetric [of ex_se_file] ex_se_file_full_device by simp

section \<open>The k-averaged self-energy\<close>



text \<open>
  Claim C10 as stated fails: not every call ends in NameError. The electrode \<open>Right\<close> of
  \<open>ex_se_file\<close> has no averaged self-energies, so reading \<open>ReSelfEnergyMean\<close> raises
  before \<open>ik\<close> is reached; and an energy given as a string that \<open>float\<close> cannot read
  raises ValueError in \<open>Eindex\<close>.
\<close>

theorem self_energy_average_other_errors_counterexample:
  "self_energy_average 1 ex_se_file (ElecStr ''Right'' None) (EInt 0) False = Inl KeyError \<and>
   self_energy_average 1 ex_se_file (ElecInt 0) (EStr ''abc'' None) False = Inl ValueError"
  by (simp add: self_energy_average_def Eindex_def variable_of_def group_of_def elec_tree_def
      ex_se_file_def)


section \<open>Writing and reading back a Hamiltonian\<close>


lemma length_row_cols [simp]: "length (row_cols ns cs) = length ns"
  by (induction ns arbitrary: cs) simp_all














section \<open>The weights of a Monkhorst-Pack grid\<close>

lemma find_in_set: "find P xs = Some x \<Longrightarrow> x \<in> set xs"
  by (induction xs) (auto split: if_splits)

lemma trs_collapse_sum:
  "\<forall>p \<in> set kw. snd p = w0 \<Longrightarrow> weight_sum (trs_collapse kw) = weight_sum kw"
proof (induction kw rule: trs_collapse.induct)
  case 1
  then show ?case by simp
next
  case (2 k w rest)
  from "2.prems" have w: "w = w0" and rest: "\<forall>p \<in> set rest. snd p = w0" by simp_all
  show ?case
  proof (cases "self_paired k")
    case True
    with "2.IH"(1)[OF True rest] show ?thesis by (simp add: weight_sum_def)
  next
    case False
    show ?thesis
    proof (cases "find (\<lambda>p. is_partner k (fst p)) rest")
      case None
      with "2.IH"(2)[OF False None rest] False show ?thesis by (simp add: weight_sum_def)
    next
      case (Some p)
      then have p: "p \<in> set rest" by (rule find_in_set)
      with rest have sp: "snd p = w0" by simp
      from rest have "\<forall>q \<in> set (remove1 p rest). snd q = w0"
        using notin_set_remove1 by fastforce
      from "2.IH"(3)[OF False Some this]
      have "weight_sum (trs_collapse (remove1 p rest)) = weight_sum (remove1 p rest)" .
      moreover from p have "weight_sum rest = snd p + weight_sum (remove1 p rest)"
        unfolding weight_sum_def by (rule sum_list_map_remove1)
      ultimately show ?thesis using False Some w sp by (simp add: weight_sum_def)
    qed
  qed
qed

lemma length_axis_grid [simp]: "length (axis_grid trs n) = n"
  by (simp add: axis_grid_def)

lemma length_mp_grid: "length (mp_grid trs (nx, ny, nz)) = nx * ny * nz"
  by (simp add: mp_grid_def)

lemma weight_sum_const: "weight_sum (map (\<lambda>k. (f k, w)) ks) = real (length ks) * w"
  by (induction ks) (simp_all add: weight_sum_def algebra_simps)

text \<open>
  Claim C8. For every grid with positive axis sizes, in particular for
  \<open>1 \<le> nx \<le> 10\<close>, \<open>1 \<le> ny \<le> 20\<close>, \<open>1 \<le> nz \<le> 6\<close>, with or without the collapse under
  time-reversal symmetry and for any size factors and displacement, the k-point weights
  add up to the product of the size factors: exactly in real arithmetic, hence within
  \<open>1e-9\<close>.
\<close>

theorem monkhorst_pack_weight_sum:
  assumes "0 < nx" and "0 < ny" and "0 < nz"
  shows "weight_sum (MonkhorstPack (nx, ny, nz) trs d (s1, s2, s3)) = s1 * s2 * s3 \<and>
         \<bar>weight_sum (MonkhorstPack (nx, ny, nz) trs d (s1, s2, s3)) - s1 * s2 * s3\<bar> \<le> 1 / 10 ^ 9"
proof -
  let ?w = "s1 * s2 * s3 / real (nx * ny * nz)"
  let ?kw = "map (\<lambda>k. (rescale (s1, s2, s3) (displace d k), ?w)) (mp_grid trs (nx, ny, nz))"
  from assms have pos: "real (nx * ny * nz) \<noteq> 0" by simp
  have "weight_sum ?kw = real (nx * ny * nz) * ?w"
    by (simp only: weight_sum_const length_mp_grid)
  also from pos have "\<dots> = s1 * s2 * s3" by simp
  finally have plain: "weight_sum ?kw = s1 * s2 * s3" .
  have "\<forall>p \<in> set ?kw. snd p = ?w" by auto
  from trs_collapse_sum[OF this] plain have "weight_sum (trs_collapse ?kw) = s1 * s2 * s3"
    by simp
  with plain have "weight_sum (MonkhorstPack (nx, ny, nz) trs d (s1, s2, s3)) = s1 * s2 * s3"
    by (cases trs) (simp_all add: MonkhorstPack_def Let_def)
  then show ?thesis by simp
qed

lemma mp_collapsed_example:
  "MonkhorstPack (2, 1, 1) True (0, 0, 0) (1, 1, 1) = [((- 1 / 4, 0, 0), 1)]"
  by code_simp

lemma mp_plain_example:
  "MonkhorstPack (2, 1, 1) False (0, 0, 0) (1, 1, 1)
     = [((0, 0, 0), 1 / 2), ((1 / 2, 0, 0), 1 / 2)]"
  by code_simp

theorem monkhorst_pack_weight_sum_witness:
  "(0 :: nat) < 2 \<and> (0 :: nat) < 1 \<and>
   MonkhorstPack (2, 1, 1) True (0, 0, 0) (1, 1, 1) = [((- 1 / 4, 0, 0), 1)] \<and>
   weight_sum (MonkhorstPack (2, 1, 1) True (0, 0, 0) (1 / 20, 1 / 2, 9 / 10)) = 9 / 400"
proof -
  have a: "(0 :: nat) < 2" and b: "(0 :: nat) < 1" by simp_all
  from monkhorst_pack_weight_sum [OF a b b, of True "(0, 0, 0)" "1 / 20" "1 / 2" "9 / 10"]
  have "weight_sum (MonkhorstPack (2, 1, 1) True (0, 0, 0) (1 / 20, 1 / 2, 9 / 10)) = 9 / 400"
    by simp
  with a b mp_collapsed_example show ?thesis by blast
qed

end
